theory Spec2Isabelle
  imports Complex_Main
begin

section \<open>Reservation modal: data model\<close>

text \<open>
  The reservation modal (\<^verbatim>\<open>ReserveSpotModal\<close>) keeps its state in React state hooks.
  JavaScript numbers that count things (hours, availability counts) are modelled as
  \<^typ>\<open>int\<close>, prices as \<^typ>\<open>real\<close>; strings are \<^typ>\<open>string\<close>.
\<close>

record TimeSlot =
  startTime :: string
  endTime :: string
  hour :: int
  timeLabel :: string
  availableSpots :: int
  totalSpots :: int
  isAvailable :: bool
  isPast :: bool
  basicAvailable :: int
  coveredAvailable :: int
  chargingAvailable :: int
  coveredAndChargingAvailable :: int

record PricingInfo =
  hourlyRate :: real
  dailyRate :: real
  coveredHourlyRate :: real
  coveredDailyRate :: real
  chargingHourlyRate :: real
  chargingDailyRate :: real

record FeatureCounts =
  total :: int
  basic :: int
  covered_count :: int
  charging_count :: int
  coveredAndCharging :: int

record FeatureSelection =
  covered :: bool
  charging :: bool

text \<open>
  \<open>selectedDate\<close> is the string \<^verbatim>\<open>YYYY-MM-DD\<close> in the source; the model keeps the calendar
  day it names, counted in days since 1970-01-01. \<open>open_prop\<close> and \<open>landOwnerId\<close> are props
  of the component, \<open>accessToken\<close> is \<^verbatim>\<open>session?.accessToken\<close>.
\<close>

record Vehicle =
  vehicle_id :: string
  vehicle_type :: string

record ModalState =
  open_prop :: bool
  landOwnerId :: string
  accessToken :: "string option"
  vehicles :: "Vehicle list"
  loading :: bool
  error :: string
  success :: bool
  timeSlots :: "TimeSlot list"
  loadingSlots :: bool
  selectedSlots :: "int list"
  showPriceSummary :: bool
  pricing :: PricingInfo
  featureCounts :: FeatureCounts
  selectedFeatures :: FeatureSelection
  vehicleId :: string
  selectedDate :: int

definition emptyPricing :: PricingInfo where
  "emptyPricing = \<lparr>hourlyRate = 0, dailyRate = 0, coveredHourlyRate = 0,
     coveredDailyRate = 0, chargingHourlyRate = 0, chargingDailyRate = 0\<rparr>"

definition emptyFeatureCounts :: FeatureCounts where
  "emptyFeatureCounts = \<lparr>total = 0, basic = 0, covered_count = 0, charging_count = 0,
     coveredAndCharging = 0\<rparr>"

section \<open>Slot selection\<close>

text \<open>The feature check of \<^verbatim>\<open>handleSlotClick\<close>: one disjunction per feature combination.\<close>

definition isFeatureAvailable :: "FeatureSelection \<Rightarrow> TimeSlot \<Rightarrow> bool" where
  "isFeatureAvailable f slot =
     (if covered f \<and> charging f then coveredAndChargingAvailable slot > 0
      else if covered f then
        coveredAvailable slot > 0 \<or> coveredAndChargingAvailable slot > 0
      else if charging f then
        chargingAvailable slot > 0 \<or> coveredAndChargingAvailable slot > 0
      else
        basicAvailable slot > 0 \<or> coveredAvailable slot > 0 \<or>
        chargingAvailable slot > 0 \<or> coveredAndChargingAvailable slot > 0)"

text \<open>
  The updater passed to \<^verbatim>\<open>setSelectedSlots\<close>: remove the hour when it is included,
  otherwise append it and sort numerically ascending (\<^verbatim>\<open>sort((a, b) => a - b)\<close>).
\<close>

definition toggleSlot :: "int \<Rightarrow> int list \<Rightarrow> int list" where
  "toggleSlot h prev =
     (if h \<in> set prev then filter (\<lambda>x. x \<noteq> h) prev else sort (prev @ [h]))"

definition handleSlotClick :: "int \<Rightarrow> ModalState \<Rightarrow> ModalState" where
  "handleSlotClick h st =
     (case find (\<lambda>s. hour s = h) (timeSlots st) of
        None \<Rightarrow> st
      | Some slot \<Rightarrow>
          if isPast slot then st
          else if \<not> isFeatureAvailable (selectedFeatures st) slot then st
          else st\<lparr>selectedSlots := toggleSlot h (selectedSlots st)\<rparr>)"

definition getAvailableCountForFeatures :: "FeatureSelection \<Rightarrow> TimeSlot \<Rightarrow> int" where
  "getAvailableCountForFeatures f slot =
     (if covered f \<and> charging f then coveredAndChargingAvailable slot
      else if covered f then coveredAvailable slot + coveredAndChargingAvailable slot
      else if charging f then chargingAvailable slot + coveredAndChargingAvailable slot
      else basicAvailable slot + coveredAvailable slot + chargingAvailable slot +
           coveredAndChargingAvailable slot)"

text \<open>The \<^verbatim>\<open>disabled\<close> attribute of a button of the slot grid.\<close>

definition isDisabled :: "FeatureSelection \<Rightarrow> TimeSlot \<Rightarrow> bool" where
  "isDisabled f slot =
     (\<not> isAvailable slot \<or> isPast slot \<or> getAvailableCountForFeatures f slot = 0)"

section \<open>Pricing\<close>

definition getHourlyRate :: "ModalState \<Rightarrow> real" where
  "getHourlyRate st =
     (let rate = hourlyRate (pricing st);
          rate = (if covered (selectedFeatures st)
                  then rate + coveredHourlyRate (pricing st) else rate);
          rate = (if charging (selectedFeatures st)
                  then rate + chargingHourlyRate (pricing st) else rate)
      in rate)"

definition calculateTotalPrice :: "ModalState \<Rightarrow> real" where
  "calculateTotalPrice st =
     (let basePrice = hourlyRate (pricing st);
          basePrice = (if covered (selectedFeatures st)
                       then basePrice + coveredHourlyRate (pricing st) else basePrice);
          basePrice = (if charging (selectedFeatures st)
                       then basePrice + chargingHourlyRate (pricing st) else basePrice)
      in real (length (selectedSlots st)) * basePrice)"

section \<open>JavaScript dates\<close>

text \<open>
  A \<^verbatim>\<open>Date\<close> is a time value: milliseconds since 1970-01-01T00:00Z. The browser's time zone
  is a fixed offset \<open>tz\<close>, in minutes east of UTC (daylight saving changes are not modelled).
  \<^verbatim>\<open>new Date("YYYY-MM-DD")\<close> reads a date-only string as midnight UTC of that day;
  \<^verbatim>\<open>new Date("YYYY-MM-DDT00:00:00")\<close>, the form \<^verbatim>\<open>CustomDatePicker\<close> uses, reads it as local
  midnight. \<^verbatim>\<open>setHours(h, 0, 0, 0)\<close> keeps the local calendar day of the time value and sets
  the local time of day; \<^verbatim>\<open>toISOString\<close> prints the time value in UTC, so the request
  carries the time value itself.
\<close>

definition msPerDay :: int where
  "msPerDay = 86400000"

definition msPerHour :: int where
  "msPerHour = 3600000"

definition msPerMinute :: int where
  "msPerMinute = 60000"

definition parseDateOnly :: "int \<Rightarrow> int" where
  "parseDateOnly d = d * msPerDay"

definition parseLocalMidnight :: "int \<Rightarrow> int \<Rightarrow> int" where
  "parseLocalMidnight tz d = d * msPerDay - tz * msPerMinute"

definition localTime :: "int \<Rightarrow> int \<Rightarrow> int" where
  "localTime tz t = t + tz * msPerMinute"

definition localDay :: "int \<Rightarrow> int \<Rightarrow> int" where
  "localDay tz t = localTime tz t div msPerDay"

definition getHours :: "int \<Rightarrow> int \<Rightarrow> int" where
  "getHours tz t = (localTime tz t mod msPerDay) div msPerHour"

definition setHours :: "int \<Rightarrow> int \<Rightarrow> int \<Rightarrow> int" where
  "setHours tz t h = localDay tz t * msPerDay + h * msPerHour - tz * msPerMinute"

section \<open>Submitting a booking\<close>

record BookingRequest =
  req_vehicleId :: string
  req_landOwnerId :: string
  req_startTime :: int
  req_endTime :: int
  req_totalPrice :: real
  req_hasCoveredParking :: bool
  req_hasChargingStation :: bool

text \<open>
  What a handler sends out: the booking POST, the slots GET (location, date, vehicle
  type), the \<^verbatim>\<open>onSuccess\<close> callback and the timer that closes the modal.
\<close>

datatype ModalEffect =
  PostBooking BookingRequest
  | GetSlots string int string
  | OnSuccess
  | CloseAfter nat

text \<open>
  \<^verbatim>\<open>handleSubmit\<close> up to its \<^verbatim>\<open>await axios.post\<close>. The early returns also pass through
  the \<^verbatim>\<open>finally\<close> block, which sets \<open>loading\<close> to false once more.
\<close>

definition handleSubmit :: "int \<Rightarrow> ModalState \<Rightarrow> ModalState \<times> ModalEffect list" where
  "handleSubmit tz st0 =
     (let st = st0\<lparr>loading := True, error := []\<rparr> in
      if vehicleId st = [] then
        (st\<lparr>error := ''Please select a vehicle'', loading := False\<rparr>, [])
      else if length (selectedSlots st) = 0 then
        (st\<lparr>error := ''Please select at least one time slot'', loading := False\<rparr>, [])
      else
        let sortedSlots = sort (selectedSlots st);
            startHour = sortedSlots ! 0;
            endHour = sortedSlots ! (length sortedSlots - 1) + 1;
            chosen = parseDateOnly (selectedDate st);
            startDateTime = setHours tz chosen startHour;
            endDateTime = setHours tz chosen endHour
        in if accessToken st = None \<or> accessToken st = Some [] then
             (st\<lparr>error := ''Authentication required. Please sign in again.'',
                 loading := False\<rparr>, [])
           else
             (st, [PostBooking
                \<lparr>req_vehicleId = vehicleId st,
                 req_landOwnerId = landOwnerId st,
                 req_startTime = startDateTime,
                 req_endTime = endDateTime,
                 req_totalPrice = calculateTotalPrice st,
                 req_hasCoveredParking = covered (selectedFeatures st),
                 req_hasChargingStation = charging (selectedFeatures st)\<rparr>]))"

text \<open>
  How the POST settles: a response with its status, an axios error carrying
  \<^verbatim>\<open>err.response?.data?.error\<close> when the backend sent one, or any other exception.
\<close>

datatype SubmitResult =
  Responded nat
  | AxiosError "string option"
  | ThrownError

definition handleSubmit_settled ::
  "SubmitResult \<Rightarrow> ModalState \<Rightarrow> ModalState \<times> ModalEffect list" where
  "handleSubmit_settled r st =
     (case r of
        Responded status \<Rightarrow>
          if status = 201 then
            (st\<lparr>success := True, loading := False\<rparr>, [OnSuccess, CloseAfter 2000])
          else (st\<lparr>loading := False\<rparr>, [])
      | AxiosError e \<Rightarrow>
          (case e of
             Some m \<Rightarrow>
               if m \<noteq> [] then (st\<lparr>error := m, loading := False\<rparr>, [])
               else (st\<lparr>error := ''Failed to create booking'', loading := False\<rparr>, [])
           | None \<Rightarrow> (st\<lparr>error := ''Failed to create booking'', loading := False\<rparr>, []))
      | ThrownError \<Rightarrow>
          (st\<lparr>error := ''Failed to create booking'', loading := False\<rparr>, []))"

section \<open>Loading time slots\<close>

record SlotsResponse =
  resp_slots :: "TimeSlot list option"
  resp_pricing :: "PricingInfo option"
  resp_featureCounts :: "FeatureCounts option"

datatype SlotsResult =
  SlotsOk SlotsResponse
  | SlotsFailed

text \<open>\<^verbatim>\<open>fetchTimeSlots\<close> up to its \<^verbatim>\<open>await axios.get\<close>, and its continuation.\<close>

definition fetchTimeSlots :: "ModalState \<Rightarrow> ModalState \<times> ModalEffect list" where
  "fetchTimeSlots st =
     (let vehicleType =
            (case find (\<lambda>v. vehicle_id v = vehicleId st) (vehicles st) of
               None \<Rightarrow> ''CAR''
             | Some v \<Rightarrow> if vehicle_type v = [] then ''CAR'' else vehicle_type v)
      in (st\<lparr>loadingSlots := True\<rparr>,
          [GetSlots (landOwnerId st) (selectedDate st) vehicleType]))"

definition fetchTimeSlots_settled :: "SlotsResult \<Rightarrow> ModalState \<Rightarrow> ModalState" where
  "fetchTimeSlots_settled r st =
     (case r of
        SlotsOk d \<Rightarrow>
          st\<lparr>timeSlots := (case resp_slots d of Some xs \<Rightarrow> xs | None \<Rightarrow> []),
             pricing := (case resp_pricing d of Some p \<Rightarrow> p | None \<Rightarrow> emptyPricing),
             featureCounts :=
               (case resp_featureCounts d of Some c \<Rightarrow> c | None \<Rightarrow> emptyFeatureCounts),
             selectedSlots := [],
             loadingSlots := False\<rparr>
      | SlotsFailed \<Rightarrow>
          st\<lparr>error := ''Failed to load available time slots'', loadingSlots := False\<rparr>)"

text \<open>
  The date picker's \<^verbatim>\<open>onChange\<close> stores the new date; the effect that depends on the date
  then calls \<^verbatim>\<open>fetchTimeSlots\<close> when the modal is open and a vehicle is chosen.
\<close>

definition onDateChange :: "int \<Rightarrow> ModalState \<Rightarrow> ModalState \<times> ModalEffect list" where
  "onDateChange v st =
     (let st1 = st\<lparr>selectedDate := v\<rparr> in
      if v \<noteq> selectedDate st \<and> open_prop st1 \<and> vehicleId st1 \<noteq> []
      then fetchTimeSlots st1 else (st1, []))"

text \<open>The \<^verbatim>\<open>onChange\<close> handlers of the two feature checkboxes.\<close>

definition onCoveredChange :: "bool \<Rightarrow> ModalState \<Rightarrow> ModalState" where
  "onCoveredChange checked st =
     st\<lparr>selectedFeatures := (selectedFeatures st)\<lparr>covered := checked\<rparr>,
        selectedSlots := []\<rparr>"

definition onChargingChange :: "bool \<Rightarrow> ModalState \<Rightarrow> ModalState" where
  "onChargingChange checked st =
     st\<lparr>selectedFeatures := (selectedFeatures st)\<lparr>charging := checked\<rparr>,
        selectedSlots := []\<rparr>"

section \<open>Map page: nearby queries, cancellation and debouncing\<close>

record LatLng =
  lat :: real
  lng :: real

record Bounds =
  ne :: LatLng
  sw :: LatLng

record NearbyQuery =
  q_lat :: real
  q_lng :: real
  q_radiusKm :: real

datatype PlaceType = Parking | Charging

text \<open>
  A place as the backend sends it and as the page keeps it. The fields the page copies
  unchanged and that no marker uses (phone, capacity, spot counts, amenities, images,
  the formatted distance) are left out.
\<close>

record RawPlace =
  raw_id :: string
  raw_name :: string
  raw_lat :: real
  raw_lng :: real
  raw_address :: "string option"
  raw_rating :: "real option"
  raw_pricePerHour :: real
  raw_hasCharging :: bool
  raw_hasCovered :: bool

record Place =
  place_id :: string
  place_name :: string
  place_lat :: real
  place_lng :: real
  place_type :: PlaceType
  place_address :: string
  place_rating :: real
  place_pricePerHour :: real
  place_hasCharging :: bool
  place_hasCovered :: bool

definition enhancePlace :: "RawPlace \<Rightarrow> Place" where
  "enhancePlace p =
     \<lparr>place_id = raw_id p,
      place_name = raw_name p,
      place_lat = raw_lat p,
      place_lng = raw_lng p,
      place_type = (if raw_hasCharging p then Charging else Parking),
      place_address =
        (case raw_address p of
           Some a \<Rightarrow> if a = [] then ''Address not available'' else a
         | None \<Rightarrow> ''Address not available''),
      place_rating = (case raw_rating p of Some r \<Rightarrow> r | None \<Rightarrow> 0),
      place_pricePerHour = raw_pricePerHour p,
      place_hasCharging = raw_hasCharging p,
      place_hasCovered = raw_hasCovered p\<rparr>"

datatype LogEntry = LogCancelled nat | LogFetchError nat

text \<open>
  The state of \<^verbatim>\<open>MapPageContent\<close> that nearby queries touch. Every call of
  \<^verbatim>\<open>fetchNearbyPlaces\<close> creates an \<^verbatim>\<open>AbortController\<close>; controllers are numbered in the
  order of their creation, and \<open>pendingRequests\<close> holds the requests whose promise has not
  settled, each with the number of the controller whose signal it carries.
  \<open>issuedQueries\<close> records every \<^verbatim>\<open>GET /map/nearby\<close> sent. Timers are kept with their
  identifier, the time they are due and the bounds their callback closes over.
\<close>

record MapPageState =
  places :: "Place list"
  map_loading :: bool
  abortControllerRef :: "nat option"
  nextController :: nat
  pendingRequests :: "(nat \<times> NearbyQuery) list"
  issuedQueries :: "NearbyQuery list"
  consoleLog :: "LogEntry list"
  now :: nat
  timers :: "(nat \<times> nat \<times> Bounds) list"
  debounceTimerRef :: "nat option"
  nextTimer :: nat

text \<open>
  The \<^verbatim>\<open>catch\<close> and \<^verbatim>\<open>finally\<close> blocks of a call whose request was aborted: axios rejects
  with a cancellation, which is logged as such, and \<open>loading\<close> is reset.
\<close>

definition requestCancelled :: "MapPageState \<Rightarrow> nat \<Rightarrow> MapPageState" where
  "requestCancelled st c =
     st\<lparr>consoleLog := consoleLog st @ [LogCancelled c], map_loading := False\<rparr>"

text \<open>
  \<^verbatim>\<open>fetchNearbyPlaces\<close> up to its \<^verbatim>\<open>await\<close>: abort the controller in the ref (which rejects
  its request if that is still pending), install a new controller, set \<open>loading\<close> and send
  the request. The continuation of an aborted call runs after this synchronous part.
\<close>

definition fetchNearbyPlaces ::
  "real \<Rightarrow> real \<Rightarrow> real \<Rightarrow> MapPageState \<Rightarrow> MapPageState" where
  "fetchNearbyPlaces qlat qlng radiusKm st =
     (let aborted =
            (case abortControllerRef st of
               None \<Rightarrow> []
             | Some c \<Rightarrow> filter (\<lambda>i. i = c) (map fst (pendingRequests st)));
          st1 = st\<lparr>pendingRequests :=
                  filter (\<lambda>r. Some (fst r) \<noteq> abortControllerRef st) (pendingRequests st)\<rparr>;
          c = nextController st1;
          st2 = st1\<lparr>abortControllerRef := Some c, nextController := c + 1\<rparr>;
          st3 = st2\<lparr>map_loading := True\<rparr>;
          q = \<lparr>q_lat = qlat, q_lng = qlng, q_radiusKm = radiusKm\<rparr>;
          st4 = st3\<lparr>pendingRequests := pendingRequests st3 @ [(c, q)],
                   issuedQueries := issuedQueries st3 @ [q]\<rparr>
      in foldl requestCancelled st4 aborted)"

text \<open>The continuation of a call when its response arrives, and when its request fails.\<close>

definition nearbyResponse :: "nat \<Rightarrow> RawPlace list \<Rightarrow> MapPageState \<Rightarrow> MapPageState" where
  "nearbyResponse c raw st =
     (if c \<in> set (map fst (pendingRequests st)) then
        st\<lparr>places := map enhancePlace raw,
           map_loading := False,
           pendingRequests := filter (\<lambda>r. fst r \<noteq> c) (pendingRequests st)\<rparr>
      else st)"

definition nearbyFailure :: "nat \<Rightarrow> MapPageState \<Rightarrow> MapPageState" where
  "nearbyFailure c st =
     (if c \<in> set (map fst (pendingRequests st)) then
        st\<lparr>consoleLog := consoleLog st @ [LogFetchError c],
           map_loading := False,
           pendingRequests := filter (\<lambda>r. fst r \<noteq> c) (pendingRequests st)\<rparr>
      else st)"

text \<open>
  The radius computed in the timer callback of \<^verbatim>\<open>handleBoundsChange\<close>: the haversine
  distance from the centre of the bounds to their north-east corner, in kilometres,
  rounded up.
\<close>

definition atan2 :: "real \<Rightarrow> real \<Rightarrow> real" where
  "atan2 y x =
     (if 0 < x then arctan (y / x)
      else if x < 0 \<and> 0 \<le> y then arctan (y / x) + pi
      else if x < 0 then arctan (y / x) - pi
      else if 0 < y then pi / 2
      else if y < 0 then - (pi / 2)
      else 0)"

definition boundsRadiusKm :: "Bounds \<Rightarrow> real" where
  "boundsRadiusKm b =
     (let centerLat = (lat (ne b) + lat (sw b)) / 2;
          centerLng = (lng (ne b) + lng (sw b)) / 2;
          R = 6371;
          dLat = ((lat (ne b) - centerLat) * pi) / 180;
          dLng = ((lng (ne b) - centerLng) * pi) / 180;
          a = sin (dLat / 2) * sin (dLat / 2) +
              cos ((centerLat * pi) / 180) * cos ((lat (ne b) * pi) / 180) *
              sin (dLng / 2) * sin (dLng / 2);
          c = 2 * atan2 (sqrt a) (sqrt (1 - a))
      in of_int \<lceil>R * c\<rceil>)"

definition boundsQuery :: "Bounds \<Rightarrow> NearbyQuery" where
  "boundsQuery b =
     \<lparr>q_lat = (lat (ne b) + lat (sw b)) / 2,
      q_lng = (lng (ne b) + lng (sw b)) / 2,
      q_radiusKm = max (boundsRadiusKm b) 5\<rparr>"

definition timerCallback :: "MapPageState \<Rightarrow> nat \<times> nat \<times> Bounds \<Rightarrow> MapPageState" where
  "timerCallback st t =
     (let q = boundsQuery (snd (snd t))
      in fetchNearbyPlaces (q_lat q) (q_lng q) (q_radiusKm q) st)"

text \<open>
  \<^verbatim>\<open>handleBoundsChange\<close>: clear the timer in the ref, then schedule the callback 500 ms
  from now and keep the new timer in the ref.
\<close>

definition handleBoundsChange :: "Bounds \<Rightarrow> MapPageState \<Rightarrow> MapPageState" where
  "handleBoundsChange b st =
     (let st1 = (case debounceTimerRef st of
                   None \<Rightarrow> st
                 | Some t \<Rightarrow> st\<lparr>timers := filter (\<lambda>x. fst x \<noteq> t) (timers st)\<rparr>);
          t = nextTimer st1
      in st1\<lparr>timers := timers st1 @ [(t, now st1 + 500, b)],
             debounceTimerRef := Some t,
             nextTimer := t + 1\<rparr>)"

text \<open>
  Time passing: the clock moves on by \<open>d\<close> milliseconds and the callbacks of the timers
  that are due by then run, in the order in which they were scheduled.
\<close>

definition advance :: "nat \<Rightarrow> MapPageState \<Rightarrow> MapPageState" where
  "advance d st =
     (let t = now st + d;
          due = filter (\<lambda>x. fst (snd x) \<le> t) (timers st);
          st1 = st\<lparr>now := t, timers := filter (\<lambda>x. \<not> fst (snd x) \<le> t) (timers st)\<rparr>
      in foldl timerCallback st1 due)"

text \<open>
  What can happen to the page: the map reports new bounds, time passes, a location is
  chosen (a direct call of \<^verbatim>\<open>fetchNearbyPlaces\<close> with the default radius of 10 km), a
  response arrives for a request, or a request fails.
\<close>

datatype MapEvent =
  BoundsChange Bounds
  | Advance nat
  | FetchNearby real real
  | Respond nat "RawPlace list"
  | Fail nat

fun step :: "MapEvent \<Rightarrow> MapPageState \<Rightarrow> MapPageState" where
  "step (BoundsChange b) st = handleBoundsChange b st"
| "step (Advance d) st = advance d st"
| "step (FetchNearby qlat qlng) st = fetchNearbyPlaces qlat qlng 10 st"
| "step (Respond c raw) st = nearbyResponse c raw st"
| "step (Fail c) st = nearbyFailure c st"

fun run :: "MapEvent list \<Rightarrow> MapPageState \<Rightarrow> MapPageState" where
  "run [] st = st"
| "run (e # es) st = run es (step e st)"

definition initialMapPage :: MapPageState where
  "initialMapPage =
     \<lparr>places = [], map_loading = False, abortControllerRef = None, nextController = 1,
      pendingRequests = [], issuedQueries = [], consoleLog = [], now = 0, timers = [],
      debounceTimerRef = None, nextTimer = 1\<rparr>"

text \<open>
  A burst of bounds changes: each \<open>(b, d)\<close> of the list is a call with bounds \<open>b\<close> followed
  by \<open>d\<close> milliseconds without a call; the burst ends with a call with bounds \<open>b_last\<close>.
\<close>

fun burst :: "(Bounds \<times> nat) list \<Rightarrow> Bounds \<Rightarrow> MapEvent list" where
  "burst [] b_last = [BoundsChange b_last]"
| "burst ((b, d) # rest) b_last = BoundsChange b # Advance d # burst rest b_last"

section \<open>Invariants of the map page\<close>

text \<open>
  A controller is settled when it has been created and no pending request carries its
  signal; it is quiet when, in addition, no fetch error has been logged for it.
\<close>

definition settled :: "nat \<Rightarrow> MapPageState \<Rightarrow> bool" where
  "settled a st = (a < nextController st \<and> a \<notin> fst ` set (pendingRequests st))"

definition quiet :: "nat \<Rightarrow> MapPageState \<Rightarrow> bool" where
  "quiet a st = (settled a st \<and> LogFetchError a \<notin> set (consoleLog st))"

text \<open>
  Controller numbers in use lie below the next one, a pending request carries the signal
  of the controller in the ref, and an error is logged only for a request that is no
  longer pending.
\<close>

definition controllersFresh :: "MapPageState \<Rightarrow> bool" where
  "controllersFresh st =
     ((\<forall>r \<in> set (pendingRequests st).
          fst r < nextController st \<and> abortControllerRef st = Some (fst r)) \<and>
      (case abortControllerRef st of
         None \<Rightarrow> True
       | Some c \<Rightarrow> c < nextController st) \<and>
      (\<forall>e \<in> set (consoleLog st).
         case e of
           LogCancelled c \<Rightarrow> True
         | LogFetchError c \<Rightarrow>
             c < nextController st \<and> c \<notin> fst ` set (pendingRequests st)))"

text \<open>Every scheduled timer is the one in the debounce ref and is not yet due.\<close>

definition timersOk :: "MapPageState \<Rightarrow> bool" where
  "timersOk st =
     (\<forall>x \<in> set (timers st). debounceTimerRef st = Some (fst x) \<and> now st < fst (snd x))"

section \<open>Map view: markers\<close>

record Marker =
  marker_id :: string
  marker_lat :: real
  marker_lng :: real
  marker_name :: string
  marker_type :: PlaceType
  marker_pricePerHour :: real

definition mapMarkers :: "Place list \<Rightarrow> Marker list" where
  "mapMarkers ps =
     map (\<lambda>p. \<lparr>marker_id = place_id p, marker_lat = place_lat p, marker_lng = place_lng p,
               marker_name = place_name p, marker_type = place_type p,
               marker_pricePerHour = place_pricePerHour p\<rparr>) ps"

text \<open>
  A JavaScript \<^verbatim>\<open>Set\<close> iterates in insertion order, so it is kept as a list without
  repetitions: \<^verbatim>\<open>new Set(xs)\<close> keeps the first occurrence of each element.
  \<^verbatim>\<open>indexOf\<close> gives -1 for an element that is not there.
\<close>

fun setAdd :: "'a list \<Rightarrow> 'a \<Rightarrow> 'a list" where
  "setAdd acc x = (if x \<in> set acc then acc else acc @ [x])"

definition newSet :: "'a list \<Rightarrow> 'a list" where
  "newSet xs = foldl setAdd [] xs"

fun indexOf :: "'a list \<Rightarrow> 'a \<Rightarrow> int" where
  "indexOf [] x = - 1"
| "indexOf (y # ys) x =
     (if x = y then 0 else (let i = indexOf ys x in if i < 0 then - 1 else i + 1))"

text \<open>
  An overlay is a marker on the map together with the delay, in seconds, of its
  \<^verbatim>\<open>markerPopIn\<close> animation, if it is given one.
\<close>

record Overlay =
  ov_marker :: Marker
  ov_animationDelay :: "real option"

record MapViewState =
  mapReady :: bool
  previousMarkerIds :: "string list"
  markersRef :: "Overlay list"

text \<open>
  The effect that runs when the \<open>markers\<close> prop changes. \<open>mapReady\<close> stands for
  \<^verbatim>\<open>mapInstanceRef.current && isLoaded\<close>.
\<close>

definition markersEffect :: "Marker list \<Rightarrow> MapViewState \<Rightarrow> MapViewState" where
  "markersEffect markers st =
     (if \<not> mapReady st then st
      else
        let currentMarkerIds = newSet (map marker_id markers);
            newMarkerIds = filter (\<lambda>i. i \<notin> set (previousMarkerIds st)) currentMarkerIds;
            overlays =
              map (\<lambda>markerData.
                     let isNewMarker = marker_id markerData \<in> set newMarkerIds
                     in \<lparr>ov_marker = markerData,
                         ov_animationDelay =
                           (if isNewMarker
                            then Some (of_int (indexOf newMarkerIds (marker_id markerData))
                                       * 0.05)
                            else None)\<rparr>)
                  markers
        in st\<lparr>markersRef := overlays, previousMarkerIds := currentMarkerIds\<rparr>)"

definition markerAt :: "string \<Rightarrow> Marker" where
  "markerAt i = \<lparr>marker_id = i, marker_lat = 0, marker_lng = 0, marker_name = i,
     marker_type = Parking, marker_pricePerHour = 0\<rparr>"

definition rawPlaceAt :: "string \<Rightarrow> RawPlace" where
  "rawPlaceAt i = \<lparr>raw_id = i, raw_name = i, raw_lat = 0, raw_lng = 0, raw_address = None,
     raw_rating = None, raw_pricePerHour = 0, raw_hasCharging = False,
     raw_hasCovered = False\<rparr>"

definition boundsAt :: "real \<Rightarrow> Bounds" where
  "boundsAt x = \<lparr>ne = \<lparr>lat = x + 1, lng = x + 1\<rparr>, sw = \<lparr>lat = x, lng = x\<rparr>\<rparr>"

text \<open>Concrete values used to run the definitions.\<close>

definition slotAt :: "int \<Rightarrow> bool \<Rightarrow> int \<Rightarrow> int \<Rightarrow> int \<Rightarrow> int \<Rightarrow> TimeSlot" where
  "slotAt h past b cv ch cc =
     \<lparr>startTime = [], endTime = [], hour = h, timeLabel = [],
      availableSpots = b + cv + ch + cc, totalSpots = b + cv + ch + cc,
      isAvailable = (b + cv + ch + cc > 0), isPast = past,
      basicAvailable = b, coveredAvailable = cv, chargingAvailable = ch,
      coveredAndChargingAvailable = cc\<rparr>"

definition initialModal :: ModalState where
  "initialModal =
     \<lparr>open_prop = True, landOwnerId = ''owner'', accessToken = Some ''token'',
      vehicles = [\<lparr>vehicle_id = ''v1'', vehicle_type = ''CAR''\<rparr>],
      loading = False, error = [],
      success = False, timeSlots = [], loadingSlots = False, selectedSlots = [],
      showPriceSummary = False, pricing = emptyPricing,
      featureCounts = emptyFeatureCounts,
      selectedFeatures = \<lparr>covered = False, charging = False\<rparr>,
      vehicleId = [], selectedDate = 0\<rparr>"

definition exampleModal :: ModalState where
  "exampleModal =
     initialModal\<lparr>timeSlots := [slotAt 8 True 1 0 0 0, slotAt 9 False 0 2 0 1],
       selectedSlots := [10, 17], vehicleId := ''v1''\<rparr>"

definition bookingModal :: ModalState where
  "bookingModal = exampleModal\<lparr>selectedSlots := [9, 10, 11], selectedDate := 19737\<rparr>"

definition loadedMapView :: MapViewState where
  "loadedMapView = \<lparr>mapReady = True, previousMarkerIds = [], markersRef = []\<rparr>"

section \<open>Properties of slot selection\<close>

lemma isFeatureAvailable_iff_count:
  assumes "0 \<le> basicAvailable slot" "0 \<le> coveredAvailable slot"
    "0 \<le> chargingAvailable slot" "0 \<le> coveredAndChargingAvailable slot"
  shows "isFeatureAvailable f slot \<longleftrightarrow> 0 < getAvailableCountForFeatures f slot"
  using assms unfolding isFeatureAvailable_def getAvailableCountForFeatures_def
  by auto

lemma toggleSlot_changes: "toggleSlot h xs \<noteq> xs"
proof (cases "h \<in> set xs")
  case True
  then have "length (filter (\<lambda>x. x \<noteq> h) xs) < length xs"
    by (simp add: length_filter_less)
  then show ?thesis using True by (auto simp: toggleSlot_def)
next
  case False
  have "length (sort (xs @ [h])) \<noteq> length xs" by simp
  then have "sort (xs @ [h]) \<noteq> xs" by metis
  then show ?thesis using False by (simp add: toggleSlot_def)
qed

lemma toggleSlot_strict_sorted:
  assumes "sorted_wrt (<) xs"
  shows "sorted_wrt (<) (toggleSlot h xs)"
proof (cases "h \<in> set xs")
  case True
  then show ?thesis using assms by (simp add: toggleSlot_def sorted_wrt_filter)
next
  case False
  from assms have "distinct xs" by (simp add: strict_sorted_iff)
  with False have "distinct (sort (xs @ [h]))" by simp
  then show ?thesis using False by (simp add: toggleSlot_def strict_sorted_iff)
qed

lemma set_toggleSlot:
  "set (toggleSlot h xs) = (if h \<in> set xs then set xs - {h} else insert h (set xs))"
  by (auto simp: toggleSlot_def)

lemma toggleSlot_twice:
  assumes "sorted_wrt (<) xs"
  shows "toggleSlot h (toggleSlot h xs) = xs"
proof -
  have s2: "sorted_wrt (<) (toggleSlot h (toggleSlot h xs))"
    using assms by (intro toggleSlot_strict_sorted)
  have "set (toggleSlot h (toggleSlot h xs)) = set xs"
    by (auto simp: set_toggleSlot)
  with s2 assms show ?thesis
    by (simp add: strict_sorted_equal)
qed

lemma handleSlotClick_found:
  assumes "find (\<lambda>s. hour s = h) (timeSlots st) = Some slot"
  shows "handleSlotClick h st =
     (if \<not> isPast slot \<and> isFeatureAvailable (selectedFeatures st) slot
      then st\<lparr>selectedSlots := toggleSlot h (selectedSlots st)\<rparr> else st)"
  using assms by (simp add: handleSlotClick_def)

lemma handleSlotClick_selection:
  "selectedSlots (handleSlotClick h st) = selectedSlots st \<or>
   selectedSlots (handleSlotClick h st) = toggleSlot h (selectedSlots st)"
  by (simp add: handleSlotClick_def split: option.split)

lemma handleSlotClick_timeSlots:
  "timeSlots (handleSlotClick h st) = timeSlots st \<and>
   selectedFeatures (handleSlotClick h st) = selectedFeatures st"
  by (simp add: handleSlotClick_def split: option.split)

text \<open>
  C1. A slot of the grid with non-negative availability counts is selectable (a click on
  its hour toggles the selection, and so changes it) if and only if it is not in the past
  and the availability sum relevant to the active feature selection is positive: the
  covered-and-charging count when both features are on, covered plus covered-and-charging
  when only covered is on, charging plus covered-and-charging when only charging is on,
  and the sum of all four counts when no feature is on.
\<close>

theorem handleSlotClick_selectable_iff:
  assumes "find (\<lambda>s. hour s = h) (timeSlots st) = Some slot"
    and "0 \<le> basicAvailable slot" and "0 \<le> coveredAvailable slot"
    and "0 \<le> chargingAvailable slot" and "0 \<le> coveredAndChargingAvailable slot"
  shows "(handleSlotClick h st \<noteq> st) =
      (\<not> isPast slot \<and>
       0 < (if covered (selectedFeatures st) \<and> charging (selectedFeatures st)
            then coveredAndChargingAvailable slot
            else if covered (selectedFeatures st)
            then coveredAvailable slot + coveredAndChargingAvailable slot
            else if charging (selectedFeatures st)
            then chargingAvailable slot + coveredAndChargingAvailable slot
            else basicAvailable slot + coveredAvailable slot +
                 chargingAvailable slot + coveredAndChargingAvailable slot))
    \<and> handleSlotClick h st =
      (if \<not> isPast slot \<and> 0 < getAvailableCountForFeatures (selectedFeatures st) slot
       then st\<lparr>selectedSlots := toggleSlot h (selectedSlots st)\<rparr> else st)"
proof -
  have avail: "isFeatureAvailable (selectedFeatures st) slot \<longleftrightarrow>
      0 < getAvailableCountForFeatures (selectedFeatures st) slot"
    using assms(2-5) by (rule isFeatureAvailable_iff_count)
  have run: "handleSlotClick h st =
      (if \<not> isPast slot \<and> 0 < getAvailableCountForFeatures (selectedFeatures st) slot
       then st\<lparr>selectedSlots := toggleSlot h (selectedSlots st)\<rparr> else st)"
    using handleSlotClick_found [OF assms(1)] avail by simp
  have "st\<lparr>selectedSlots := toggleSlot h (selectedSlots st)\<rparr> \<noteq> st"
  proof
    assume "st\<lparr>selectedSlots := toggleSlot h (selectedSlots st)\<rparr> = st"
    then have "selectedSlots (st\<lparr>selectedSlots := toggleSlot h (selectedSlots st)\<rparr>) =
        selectedSlots st" by simp
    then show False using toggleSlot_changes [of h "selectedSlots st"] by simp
  qed
  with run have "(handleSlotClick h st \<noteq> st) =
      (\<not> isPast slot \<and> 0 < getAvailableCountForFeatures (selectedFeatures st) slot)"
    by simp
  then show ?thesis using run
    by (simp add: getAvailableCountForFeatures_def)
qed

theorem handleSlotClick_selectable_iff_witness:
  "find (\<lambda>s. hour s = 9)
     (timeSlots (initialModal\<lparr>timeSlots := [slotAt 9 False 0 2 0 1],
        selectedFeatures := \<lparr>covered = True, charging = False\<rparr>\<rparr>))
     = Some (slotAt 9 False 0 2 0 1)
   \<and> 0 \<le> basicAvailable (slotAt 9 False 0 2 0 1)
   \<and> 0 \<le> coveredAvailable (slotAt 9 False 0 2 0 1)
   \<and> 0 \<le> chargingAvailable (slotAt 9 False 0 2 0 1)
   \<and> 0 \<le> coveredAndChargingAvailable (slotAt 9 False 0 2 0 1)
   \<and> handleSlotClick 9 (initialModal\<lparr>timeSlots := [slotAt 9 False 0 2 0 1],
        selectedFeatures := \<lparr>covered = True, charging = False\<rparr>\<rparr>)
     \<noteq> initialModal\<lparr>timeSlots := [slotAt 9 False 0 2 0 1],
        selectedFeatures := \<lparr>covered = True, charging = False\<rparr>\<rparr>
   \<and> selectedSlots (handleSlotClick 9 (initialModal\<lparr>timeSlots := [slotAt 9 False 0 2 0 1],
        selectedFeatures := \<lparr>covered = True, charging = False\<rparr>\<rparr>)) = [9]"
  using handleSlotClick_selectable_iff [of 9
      "initialModal\<lparr>timeSlots := [slotAt 9 False 0 2 0 1],
        selectedFeatures := \<lparr>covered = True, charging = False\<rparr>\<rparr>"
      "slotAt 9 False 0 2 0 1"]
  by (simp add: slotAt_def initialModal_def toggleSlot_def
      getAvailableCountForFeatures_def)

text \<open>
  C2. The total price is the number of selected hours times the hourly rate plus the
  covered surcharge when covered is selected plus the charging surcharge when charging is
  selected; it is that number times \<open>getHourlyRate\<close>, it is additive in the selection, and
  rates 5, 2 and 3 with both features and the hours 9, 10 and 11 give 30.
\<close>

theorem calculateTotalPrice_linear:
  "calculateTotalPrice st =
     real (length (selectedSlots st)) *
       (hourlyRate (pricing st)
        + (if covered (selectedFeatures st) then coveredHourlyRate (pricing st) else 0)
        + (if charging (selectedFeatures st) then chargingHourlyRate (pricing st) else 0))
   \<and> calculateTotalPrice st = real (length (selectedSlots st)) * getHourlyRate st
   \<and> calculateTotalPrice (st\<lparr>selectedSlots := xs @ ys\<rparr>) =
       calculateTotalPrice (st\<lparr>selectedSlots := xs\<rparr>) +
       calculateTotalPrice (st\<lparr>selectedSlots := ys\<rparr>)
   \<and> calculateTotalPrice (initialModal\<lparr>selectedSlots := [9, 10, 11],
         pricing := emptyPricing\<lparr>hourlyRate := 5, coveredHourlyRate := 2,
           chargingHourlyRate := 3\<rparr>,
         selectedFeatures := \<lparr>covered = True, charging = True\<rparr>\<rparr>) = 30"
  by (simp add: calculateTotalPrice_def getHourlyRate_def Let_def algebra_simps
      initialModal_def emptyPricing_def)

text \<open>
  C9. Toggling keeps the hour selection strictly ascending (hence free of duplicates):
  an absent hour is added by appending and sorting, a present hour is removed, and the
  same holds for the selection left by a click on any hour of the grid.
\<close>

theorem toggleSlot_preserves_sorted:
  assumes "sorted_wrt (<) (selectedSlots st)"
  shows "sorted_wrt (<) (toggleSlot h (selectedSlots st))
    \<and> distinct (toggleSlot h (selectedSlots st))
    \<and> set (toggleSlot h (selectedSlots st)) =
        (if h \<in> set (selectedSlots st) then set (selectedSlots st) - {h}
         else insert h (set (selectedSlots st)))
    \<and> sorted_wrt (<) (selectedSlots (handleSlotClick h st))"
proof -
  have t: "sorted_wrt (<) (toggleSlot h (selectedSlots st))"
    using assms by (rule toggleSlot_strict_sorted)
  then have d: "distinct (toggleSlot h (selectedSlots st))"
    by (simp add: strict_sorted_iff)
  have c: "sorted_wrt (<) (selectedSlots (handleSlotClick h st))"
    using handleSlotClick_selection [of h st] t assms by auto
  show ?thesis using t d c set_toggleSlot [of h "selectedSlots st"] by simp
qed

theorem toggleSlot_preserves_sorted_witness:
  "sorted_wrt (<) (selectedSlots (initialModal\<lparr>selectedSlots := [9, 17]\<rparr>))
   \<and> toggleSlot 12 [9, 17] = [9, 12, 17]
   \<and> toggleSlot 9 [9, 17] = [17]
   \<and> sorted_wrt (<) (toggleSlot 12 (selectedSlots (initialModal\<lparr>selectedSlots := [9, 17]\<rparr>)))"
  using toggleSlot_preserves_sorted [of "initialModal\<lparr>selectedSlots := [9, 17]\<rparr>" 12]
  by (simp add: toggleSlot_def initialModal_def)

text \<open>
  C10. On a strictly ascending selection, clicking the same hour twice gives back exactly
  the state before the two clicks, whether the first click added or removed the hour; a
  click on an hour that has no slot, whose slot is past, or whose slot has nothing
  available for the selected features leaves the state as it is.
\<close>

theorem handleSlotClick_twice:
  assumes "sorted_wrt (<) (selectedSlots st)"
  shows "handleSlotClick h (handleSlotClick h st) = st
    \<and> toggleSlot h (toggleSlot h (selectedSlots st)) = selectedSlots st
    \<and> ((case find (\<lambda>s. hour s = h) (timeSlots st) of
           None \<Rightarrow> True
         | Some slot \<Rightarrow> isPast slot \<or> \<not> isFeatureAvailable (selectedFeatures st) slot)
        \<longrightarrow> handleSlotClick h st = st)"
proof -
  have tw: "toggleSlot h (toggleSlot h (selectedSlots st)) = selectedSlots st"
    using assms by (rule toggleSlot_twice)
  have "handleSlotClick h (handleSlotClick h st) = st"
  proof (cases "find (\<lambda>s. hour s = h) (timeSlots st)")
    case None
    then show ?thesis by (simp add: handleSlotClick_def)
  next
    case (Some slot)
    show ?thesis
    proof (cases "\<not> isPast slot \<and> isFeatureAvailable (selectedFeatures st) slot")
      case True
      let ?st' = "st\<lparr>selectedSlots := toggleSlot h (selectedSlots st)\<rparr>"
      have one: "handleSlotClick h st = ?st'"
        using handleSlotClick_found [OF Some] True by simp
      have "find (\<lambda>s. hour s = h) (timeSlots ?st') = Some slot"
        using Some by simp
      then have "handleSlotClick h ?st' =
          ?st'\<lparr>selectedSlots := toggleSlot h (selectedSlots ?st')\<rparr>"
        using True by (simp add: handleSlotClick_found)
      then show ?thesis using one tw by simp
    next
      case False
      then have "handleSlotClick h st = st"
        using handleSlotClick_found [OF Some] by auto
      then show ?thesis by simp
    qed
  qed
  moreover have "(case find (\<lambda>s. hour s = h) (timeSlots st) of
           None \<Rightarrow> True
         | Some slot \<Rightarrow> isPast slot \<or> \<not> isFeatureAvailable (selectedFeatures st) slot)
        \<longrightarrow> handleSlotClick h st = st"
    by (auto simp: handleSlotClick_def split: option.split)
  ultimately show ?thesis using tw by simp
qed

theorem handleSlotClick_twice_witness:
  "sorted_wrt (<) (selectedSlots exampleModal)
   \<and> selectedSlots (handleSlotClick 9 exampleModal) = [9, 10, 17]
   \<and> handleSlotClick 9 (handleSlotClick 9 exampleModal) = exampleModal
   \<and> find (\<lambda>s. hour s = 8) (timeSlots exampleModal) = Some (slotAt 8 True 1 0 0 0)
   \<and> isPast (slotAt 8 True 1 0 0 0)
   \<and> handleSlotClick 8 exampleModal = exampleModal"
proof -
  have s: "sorted_wrt (<) (selectedSlots exampleModal)"
    by (simp add: exampleModal_def initialModal_def)
  have p: "(case find (\<lambda>s. hour s = 8) (timeSlots exampleModal) of
         None \<Rightarrow> True
       | Some slot \<Rightarrow> isPast slot \<or> \<not> isFeatureAvailable (selectedFeatures exampleModal) slot)"
    by (simp add: exampleModal_def initialModal_def slotAt_def)
  have c: "selectedSlots (handleSlotClick 9 exampleModal) = [9, 10, 17]"
    by (simp add: exampleModal_def initialModal_def slotAt_def handleSlotClick_def
        isFeatureAvailable_def toggleSlot_def)
  have f: "find (\<lambda>s. hour s = 8) (timeSlots exampleModal) = Some (slotAt 8 True 1 0 0 0)
      \<and> isPast (slotAt 8 True 1 0 0 0)"
    by (simp add: exampleModal_def initialModal_def slotAt_def)
  show ?thesis
    using handleSlotClick_twice [OF s, of 9] handleSlotClick_twice [OF s, of 8] s p c f
    by simp
qed


lemma enabled_button_selectable:
  assumes "0 \<le> basicAvailable slot" "0 \<le> coveredAvailable slot"
    "0 \<le> chargingAvailable slot" "0 \<le> coveredAndChargingAvailable slot"
    and "\<not> isDisabled f slot"
  shows "\<not> isPast slot \<and> isFeatureAvailable f slot"
proof -
  have "0 \<le> getAvailableCountForFeatures f slot"
    using assms(1-4) by (simp add: getAvailableCountForFeatures_def)
  then have "0 < getAvailableCountForFeatures f slot \<and> \<not> isPast slot"
    using assms(5) by (simp add: isDisabled_def)
  then show ?thesis using isFeatureAvailable_iff_count [OF assms(1-4)] by simp
qed

section \<open>Properties of booking submission\<close>

lemma sorted_first_Min:
  fixes ys :: "int list"
  assumes "sorted ys" and "ys \<noteq> []"
  shows "ys ! 0 = Min (set ys)"
proof -
  obtain y rest where ys: "ys = y # rest" using assms(2) by (cases ys) auto
  have "Min (set ys) = y"
    using assms(1) unfolding ys by (intro Min_eqI) auto
  then show ?thesis by (simp add: ys)
qed

lemma sorted_last_Max:
  fixes ys :: "int list"
  assumes "sorted ys" and "ys \<noteq> []"
  shows "ys ! (length ys - 1) = Max (set ys)"
proof -
  have l: "ys ! (length ys - 1) = last ys" using assms(2) by (simp add: last_conv_nth)
  have "\<forall>y \<in> set ys. y \<le> last ys"
    using assms(1) by (induction ys) auto
  then have "Max (set ys) = last ys"
    using assms(2) by (intro Max_eqI) auto
  then show ?thesis using l by simp
qed

lemma sort_first_Min:
  fixes xs :: "int list"
  assumes "xs \<noteq> []"
  shows "sort xs ! 0 = Min (set xs)"
proof -
  have ne: "sort xs \<noteq> []" using assms by (metis length_0_conv length_sort)
  show ?thesis using sorted_first_Min [of "sort xs"] ne by simp
qed

lemma sort_last_Max:
  fixes xs :: "int list"
  assumes "xs \<noteq> []"
  shows "sort xs ! (length (sort xs) - 1) = Max (set xs)"
proof -
  have ne: "sort xs \<noteq> []" using assms by (metis length_0_conv length_sort)
  show ?thesis using sorted_last_Max [of "sort xs"] ne by simp
qed

lemma handleSubmit_interval:
  assumes "vehicleId st \<noteq> []" and "selectedSlots st \<noteq> []"
    and "accessToken st = Some tok" and "tok \<noteq> []"
  shows "handleSubmit tz st =
     (st\<lparr>loading := True, error := []\<rparr>,
      [PostBooking
         \<lparr>req_vehicleId = vehicleId st,
          req_landOwnerId = landOwnerId st,
          req_startTime = setHours tz (parseDateOnly (selectedDate st)) (Min (set (selectedSlots st))),
          req_endTime = setHours tz (parseDateOnly (selectedDate st)) (Max (set (selectedSlots st)) + 1),
          req_totalPrice = calculateTotalPrice st,
          req_hasCoveredParking = covered (selectedFeatures st),
          req_hasChargingStation = charging (selectedFeatures st)\<rparr>])"
  using assms sort_first_Min [OF assms(2)] sort_last_Max [OF assms(2)]
  by (simp add: handleSubmit_def Let_def calculateTotalPrice_def)

lemma day_split:
  fixes k r :: int
  assumes "0 \<le> r" and "r < 86400000"
  shows "(k * 86400000 + r) div 86400000 = k \<and> (k * 86400000 + r) mod 86400000 = r"
  using assms by (simp add: div_pos_pos_trivial mod_pos_pos_trivial)

lemma setHours_utc_parse_east:
  assumes "0 \<le> tz" and "tz < 1440" and "0 \<le> h" and "h < 24"
  shows "localDay tz (setHours tz (parseDateOnly d) h) = d
    \<and> getHours tz (setHours tz (parseDateOnly d) h) = h"
proof -
  have day: "(d * 86400000 + tz * 60000) div 86400000 = d"
    using assms(1,2) by (simp add: div_pos_pos_trivial)
  have "(d * 86400000 + h * 3600000) div 86400000 = d"
    using assms(3,4) by (simp add: div_pos_pos_trivial)
  moreover have "(d * 86400000 + h * 3600000) mod 86400000 = h * 3600000"
    using assms(3,4) by (simp add: mod_pos_pos_trivial)
  ultimately show ?thesis using day
    by (simp add: localDay_def getHours_def setHours_def parseDateOnly_def localTime_def
        msPerDay_def msPerHour_def msPerMinute_def)
qed

lemma setHours_utc_parse_west:
  assumes "tz < 0" and "- 1440 < tz" and "0 \<le> h" and "h < 24"
  shows "localDay tz (setHours tz (parseDateOnly d) h) = d - 1
    \<and> getHours tz (setHours tz (parseDateOnly d) h) = h"
proof -
  define e where "e = d - 1"
  have "d * 86400000 + tz * 60000 = e * 86400000 + (86400000 + tz * 60000)"
    by (simp add: e_def)
  then have day: "(d * 86400000 + tz * 60000) div 86400000 = e"
    using day_split [of "86400000 + tz * 60000" e] assms(1,2) by simp
  have "(e * 86400000 + h * 3600000) div 86400000 = e
      \<and> (e * 86400000 + h * 3600000) mod 86400000 = h * 3600000"
    using assms(3,4) by (intro day_split) simp_all
  then have "localDay tz (setHours tz (parseDateOnly d) h) = e
    \<and> getHours tz (setHours tz (parseDateOnly d) h) = h"
    using day
    by (simp add: localDay_def getHours_def setHours_def parseDateOnly_def localTime_def
        msPerDay_def msPerHour_def msPerMinute_def)
  then show ?thesis by (simp add: e_def)
qed

lemma setHours_local_parse:
  assumes "0 \<le> h" and "h < 24"
  shows "localDay tz (setHours tz (parseLocalMidnight tz d) h) = d
    \<and> getHours tz (setHours tz (parseLocalMidnight tz d) h) = h"
proof -
  have "(d * 86400000 + h * 3600000) div 86400000 = d"
    using assms by (simp add: div_pos_pos_trivial)
  moreover have "(d * 86400000 + h * 3600000) mod 86400000 = h * 3600000"
    using assms by (simp add: mod_pos_pos_trivial)
  ultimately show ?thesis
    by (simp add: localDay_def getHours_def setHours_def parseLocalMidnight_def localTime_def
        msPerDay_def msPerHour_def msPerMinute_def)
qed


text \<open>
  C3. With a vehicle, a token and the hours 9, 10 and 11 selected for 2024-01-15
  (day 19737), in a browser five hours west of UTC, the request carries the start
  2024-01-14T14:00Z and the end 2024-01-14T17:00Z: 09:00 to 12:00 local time on day
  19736, the day before the chosen date. The hours are the least selected hour and the
  greatest plus one (\<open>handleSubmit_interval\<close>); the day is the chosen one only east of UTC
  (\<open>setHours_utc_parse_east\<close>, \<open>setHours_utc_parse_west\<close>), because the date string is read
  as midnight UTC and the hours are then set in local time.
\<close>

theorem handleSubmit_books_previous_day:
  "snd (handleSubmit (- 300) bookingModal) =
     [PostBooking
        \<lparr>req_vehicleId = ''v1'', req_landOwnerId = ''owner'',
         req_startTime = 1705240800000, req_endTime = 1705251600000,
         req_totalPrice = 0, req_hasCoveredParking = False,
         req_hasChargingStation = False\<rparr>]
   \<and> selectedDate bookingModal = 19737
   \<and> localDay (- 300) 1705240800000 = 19736 \<and> getHours (- 300) 1705240800000 = 9
   \<and> localDay (- 300) 1705251600000 = 19736 \<and> getHours (- 300) 1705251600000 = 12"
  by (simp add: handleSubmit_def bookingModal_def exampleModal_def initialModal_def
      Let_def calculateTotalPrice_def emptyPricing_def setHours_def parseDateOnly_def
      localDay_def localTime_def getHours_def msPerDay_def msPerHour_def msPerMinute_def)

text \<open>
  C8. A submission without a vehicle, or with a vehicle and no selected hour, only sets
  the message and resets \<open>loading\<close>, and sends nothing. When the POST fails with an axios
  error whose response body has a non-empty \<open>error\<close>, that text becomes the message as it
  is; any other failure gives the generic message; and no outcome of the POST sends
  another POST.
\<close>

theorem handleSubmit_failure_semantics:
  "(vehicleId st = [] \<longrightarrow>
      handleSubmit tz st =
        (st\<lparr>loading := False, error := ''Please select a vehicle''\<rparr>, []))
   \<and> (vehicleId st \<noteq> [] \<and> selectedSlots st = [] \<longrightarrow>
      handleSubmit tz st =
        (st\<lparr>loading := False, error := ''Please select at least one time slot''\<rparr>, []))
   \<and> (m \<noteq> [] \<longrightarrow>
      handleSubmit_settled (AxiosError (Some m)) st =
        (st\<lparr>loading := False, error := m\<rparr>, []))
   \<and> handleSubmit_settled (AxiosError (Some [])) st =
        (st\<lparr>loading := False, error := ''Failed to create booking''\<rparr>, [])
   \<and> handleSubmit_settled (AxiosError None) st =
        (st\<lparr>loading := False, error := ''Failed to create booking''\<rparr>, [])
   \<and> handleSubmit_settled ThrownError st =
        (st\<lparr>loading := False, error := ''Failed to create booking''\<rparr>, [])
   \<and> (\<forall>r req. PostBooking req \<notin> set (snd (handleSubmit_settled r st)))"
proof -
  have "\<forall>r req. PostBooking req \<notin> set (snd (handleSubmit_settled r st))"
    by (auto simp: handleSubmit_settled_def split: SubmitResult.split option.split)
  then show ?thesis
    by (simp add: handleSubmit_def handleSubmit_settled_def Let_def)
qed

theorem handleSubmit_failure_semantics_witness:
  "vehicleId initialModal = []
   \<and> error (fst (handleSubmit 0 initialModal)) = ''Please select a vehicle''
   \<and> snd (handleSubmit 0 initialModal) = []
   \<and> vehicleId (exampleModal\<lparr>selectedSlots := []\<rparr>) \<noteq> []
   \<and> selectedSlots (exampleModal\<lparr>selectedSlots := []\<rparr>) = []
   \<and> error (fst (handleSubmit 0 (exampleModal\<lparr>selectedSlots := []\<rparr>))) =
       ''Please select at least one time slot''
   \<and> snd (handleSubmit 0 (exampleModal\<lparr>selectedSlots := []\<rparr>)) = []
   \<and> ''Slot already booked'' \<noteq> []
   \<and> error (fst (handleSubmit_settled (AxiosError (Some ''Slot already booked''))
        exampleModal)) = ''Slot already booked''
   \<and> snd (handleSubmit_settled (AxiosError (Some ''Slot already booked'')) exampleModal) = []"
  using handleSubmit_failure_semantics [of initialModal 0 "''Slot already booked''"]
    handleSubmit_failure_semantics
      [of "exampleModal\<lparr>selectedSlots := []\<rparr>" 0 "''Slot already booked''"]
    handleSubmit_failure_semantics [of exampleModal 0 "''Slot already booked''"]
  by (simp add: initialModal_def exampleModal_def)

section \<open>Properties of selection clearing\<close>

lemma feature_change_clears_selection:
  "selectedSlots (onCoveredChange checked st) = []
   \<and> selectedSlots (onChargingChange checked st) = []"
  by (simp add: onCoveredChange_def onChargingChange_def)

lemma slots_loaded_clears_selection:
  "selectedSlots (fetchTimeSlots_settled (SlotsOk d) st) = []"
  by (simp add: fetchTimeSlots_settled_def)

lemma date_change_keeps_selection:
  "selectedSlots (fst (onDateChange v st)) = selectedSlots st
   \<and> selectedDate (fst (onDateChange v st)) = v
   \<and> selectedSlots (fetchTimeSlots_settled SlotsFailed st) = selectedSlots st
   \<and> selectedDate (fetchTimeSlots_settled SlotsFailed st) = selectedDate st"
  by (simp add: onDateChange_def fetchTimeSlots_def fetchTimeSlots_settled_def Let_def)

text \<open>
  C7. With the hours 10 and 17 selected for day 19737, choosing day 19738 starts the
  request for the new day's slots and leaves the hours selected; when that request fails
  they stay selected under the new date. A change of the feature checkboxes empties the
  selection at once (\<open>feature_change_clears_selection\<close>), and so does a successful load
  (\<open>slots_loaded_clears_selection\<close>).
\<close>

theorem date_change_keeps_stale_selection:
  "selectedSlots (exampleModal\<lparr>selectedDate := 19737\<rparr>) = [10, 17]
   \<and> snd (onDateChange 19738 (exampleModal\<lparr>selectedDate := 19737\<rparr>)) =
       [GetSlots ''owner'' 19738 ''CAR'']
   \<and> selectedSlots (fst (onDateChange 19738 (exampleModal\<lparr>selectedDate := 19737\<rparr>))) =
       [10, 17]
   \<and> selectedDate (fst (onDateChange 19738 (exampleModal\<lparr>selectedDate := 19737\<rparr>))) =
       19738
   \<and> selectedSlots (fetchTimeSlots_settled SlotsFailed
        (fst (onDateChange 19738 (exampleModal\<lparr>selectedDate := 19737\<rparr>)))) = [10, 17]
   \<and> selectedDate (fetchTimeSlots_settled SlotsFailed
        (fst (onDateChange 19738 (exampleModal\<lparr>selectedDate := 19737\<rparr>)))) = 19738"
  by (simp add: onDateChange_def fetchTimeSlots_def fetchTimeSlots_settled_def Let_def
      exampleModal_def initialModal_def)

section \<open>Properties of nearby queries\<close>

lemma foldl_requestCancelled:
  "foldl requestCancelled st cs =
     st\<lparr>consoleLog := consoleLog st @ map LogCancelled cs,
        map_loading := (if cs = [] then map_loading st else False)\<rparr>"
  by (induction cs arbitrary: st) (auto simp: requestCancelled_def)

lemma fetchNearbyPlaces_fields:
  "pendingRequests (fetchNearbyPlaces qlat qlng radiusKm st) =
     filter (\<lambda>r. Some (fst r) \<noteq> abortControllerRef st) (pendingRequests st)
     @ [(nextController st, \<lparr>q_lat = qlat, q_lng = qlng, q_radiusKm = radiusKm\<rparr>)]"
  "abortControllerRef (fetchNearbyPlaces qlat qlng radiusKm st) = Some (nextController st)"
  "nextController (fetchNearbyPlaces qlat qlng radiusKm st) = nextController st + 1"
  "places (fetchNearbyPlaces qlat qlng radiusKm st) = places st"
  "issuedQueries (fetchNearbyPlaces qlat qlng radiusKm st) =
     issuedQueries st @ [\<lparr>q_lat = qlat, q_lng = qlng, q_radiusKm = radiusKm\<rparr>]"
  "consoleLog (fetchNearbyPlaces qlat qlng radiusKm st) =
     consoleLog st @ map LogCancelled
       (case abortControllerRef st of
          None \<Rightarrow> []
        | Some c \<Rightarrow> filter (\<lambda>i. i = c) (map fst (pendingRequests st)))"
  "timers (fetchNearbyPlaces qlat qlng radiusKm st) = timers st"
  "now (fetchNearbyPlaces qlat qlng radiusKm st) = now st"
  "debounceTimerRef (fetchNearbyPlaces qlat qlng radiusKm st) = debounceTimerRef st"
  "nextTimer (fetchNearbyPlaces qlat qlng radiusKm st) = nextTimer st"
  by (simp_all add: fetchNearbyPlaces_def Let_def foldl_requestCancelled)

lemma settled_fetch: "settled a st \<Longrightarrow> settled a (fetchNearbyPlaces x y r st)"
  by (auto simp: settled_def fetchNearbyPlaces_fields)

lemma settled_foldl_timerCallback:
  "settled a st \<Longrightarrow> settled a (foldl timerCallback st ts)"
  by (induction ts arbitrary: st) (auto simp: timerCallback_def Let_def settled_fetch)

lemma settled_step: "settled a st \<Longrightarrow> settled a (step e st)"
proof (cases e)
  case (BoundsChange b)
  assume "settled a st"
  then show ?thesis using BoundsChange
    by (auto simp: settled_def handleBoundsChange_def Let_def split: option.split)
next
  case (Advance d)
  assume s: "settled a st"
  have "settled a (st\<lparr>now := now st + d,
      timers := filter (\<lambda>x. \<not> fst (snd x) \<le> now st + d) (timers st)\<rparr>)"
    using s by (simp add: settled_def)
  then show ?thesis using Advance
    by (simp add: advance_def Let_def settled_foldl_timerCallback)
next
  case (FetchNearby x y)
  assume "settled a st"
  then show ?thesis using FetchNearby by (simp add: settled_fetch)
next
  case (Respond c raw)
  assume "settled a st"
  then show ?thesis using Respond by (auto simp: settled_def nearbyResponse_def)
next
  case (Fail c)
  assume "settled a st"
  then show ?thesis using Fail by (auto simp: settled_def nearbyFailure_def)
qed

lemma settled_run: "settled a st \<Longrightarrow> settled a (run evs st)"
  by (induction evs arbitrary: st) (auto simp: settled_step)

lemma settled_response_ignored:
  "settled a st \<Longrightarrow> nearbyResponse a raw st = st \<and> nearbyFailure a st = st"
  by (simp add: settled_def nearbyResponse_def nearbyFailure_def)

lemma controllersFresh_iff:
  "controllersFresh st \<longleftrightarrow>
     ((\<forall>r \<in> set (pendingRequests st).
          fst r < nextController st \<and> abortControllerRef st = Some (fst r)) \<and>
      (\<forall>c. abortControllerRef st = Some c \<longrightarrow> c < nextController st) \<and>
      (\<forall>c. LogFetchError c \<in> set (consoleLog st) \<longrightarrow>
           c < nextController st \<and> c \<notin> fst ` set (pendingRequests st)))"
proof -
  have "(\<forall>e \<in> set (consoleLog st).
         case e of
           LogCancelled c \<Rightarrow> True
         | LogFetchError c \<Rightarrow>
             c < nextController st \<and> c \<notin> fst ` set (pendingRequests st))
      \<longleftrightarrow> (\<forall>c. LogFetchError c \<in> set (consoleLog st) \<longrightarrow>
           c < nextController st \<and> c \<notin> fst ` set (pendingRequests st))"
    by (auto split: LogEntry.splits)
  moreover have "(case abortControllerRef st of None \<Rightarrow> True
       | Some c \<Rightarrow> c < nextController st)
      \<longleftrightarrow> (\<forall>c. abortControllerRef st = Some c \<longrightarrow> c < nextController st)"
    by (simp split: option.split)
  ultimately show ?thesis unfolding controllersFresh_def by simp
qed

lemma fresh_fetch: "controllersFresh st \<Longrightarrow> controllersFresh (fetchNearbyPlaces x y r st)"
  by (fastforce simp: controllersFresh_iff fetchNearbyPlaces_fields split: option.splits)

lemma fresh_foldl_timerCallback:
  "controllersFresh st \<Longrightarrow> controllersFresh (foldl timerCallback st ts)"
  by (induction ts arbitrary: st) (auto simp: timerCallback_def Let_def fresh_fetch)

lemma fresh_step: "controllersFresh st \<Longrightarrow> controllersFresh (step e st)"
proof (cases e)
  case (BoundsChange b)
  assume "controllersFresh st"
  then show ?thesis using BoundsChange
    by (auto simp: controllersFresh_iff handleBoundsChange_def Let_def split: option.split)
next
  case (Advance d)
  assume s: "controllersFresh st"
  have "controllersFresh (st\<lparr>now := now st + d,
      timers := filter (\<lambda>x. \<not> fst (snd x) \<le> now st + d) (timers st)\<rparr>)"
    using s by (simp add: controllersFresh_iff)
  then show ?thesis using Advance
    by (simp add: advance_def Let_def fresh_foldl_timerCallback)
next
  case (FetchNearby x y)
  assume "controllersFresh st"
  then show ?thesis using FetchNearby by (simp add: fresh_fetch)
next
  case (Respond c raw)
  assume "controllersFresh st"
  then show ?thesis using Respond by (auto simp: controllersFresh_iff nearbyResponse_def)
next
  case (Fail c)
  assume "controllersFresh st"
  then show ?thesis using Fail by (auto simp: controllersFresh_iff nearbyFailure_def)
qed

lemma fresh_run: "controllersFresh st \<Longrightarrow> controllersFresh (run evs st)"
  by (induction evs arbitrary: st) (auto simp: fresh_step)

lemma fresh_initial: "controllersFresh initialMapPage"
  by (simp add: controllersFresh_iff initialMapPage_def)

lemma quiet_fetch: "quiet a st \<Longrightarrow> quiet a (fetchNearbyPlaces x y r st)"
  by (auto simp: quiet_def settled_fetch fetchNearbyPlaces_fields split: option.splits)

lemma quiet_foldl_timerCallback:
  "quiet a st \<Longrightarrow> quiet a (foldl timerCallback st ts)"
  by (induction ts arbitrary: st) (auto simp: timerCallback_def Let_def quiet_fetch)

lemma quiet_step: "quiet a st \<Longrightarrow> quiet a (step e st)"
proof (cases e)
  case (BoundsChange b)
  assume "quiet a st"
  then show ?thesis using BoundsChange
    by (auto simp: quiet_def settled_def handleBoundsChange_def Let_def split: option.split)
next
  case (Advance d)
  assume s: "quiet a st"
  have "quiet a (st\<lparr>now := now st + d,
      timers := filter (\<lambda>x. \<not> fst (snd x) \<le> now st + d) (timers st)\<rparr>)"
    using s by (simp add: quiet_def settled_def)
  then show ?thesis using Advance
    by (simp add: advance_def Let_def quiet_foldl_timerCallback)
next
  case (FetchNearby x y)
  assume "quiet a st"
  then show ?thesis using FetchNearby by (simp add: quiet_fetch)
next
  case (Respond c raw)
  assume "quiet a st"
  then show ?thesis using Respond by (auto simp: quiet_def settled_def nearbyResponse_def)
next
  case (Fail c)
  assume "quiet a st"
  then show ?thesis using Fail by (auto simp: quiet_def settled_def nearbyFailure_def)
qed

lemma quiet_run: "quiet a st \<Longrightarrow> quiet a (run evs st)"
  by (induction evs arbitrary: st) (auto simp: quiet_step)

lemma run_append: "run (xs @ ys) st = run ys (run xs st)"
  by (induction xs arbitrary: st) simp_all


text \<open>
  C4. Let query A be in flight in a reachable state of the page, and let query B be
  issued. Then A's controller is the one in the ref, so issuing B aborts it: A's request
  is no longer pending and its cancellation is logged as a cancellation. After any
  further events, B's response among them, a response for A changes nothing, the places
  least of all, and no fetch error is ever logged for A; B's own response does set the
  places.
\<close>

theorem stale_nearby_response_ignored:
  assumes reach: "s = run evs0 initialMapPage"
    and inflight: "a \<in> fst ` set (pendingRequests s)"
  shows "abortControllerRef s = Some a
    \<and> a \<notin> fst ` set (pendingRequests (fetchNearbyPlaces qlat qlng r s))
    \<and> set (consoleLog (fetchNearbyPlaces qlat qlng r s)) =
        insert (LogCancelled a) (set (consoleLog s))
    \<and> (\<forall>evs raw.
          nearbyResponse a raw (run evs (fetchNearbyPlaces qlat qlng r s)) =
            run evs (fetchNearbyPlaces qlat qlng r s)
        \<and> places (run (evs @ [Respond a raw]) (fetchNearbyPlaces qlat qlng r s)) =
            places (run evs (fetchNearbyPlaces qlat qlng r s))
        \<and> LogFetchError a \<notin> set (consoleLog (run evs (fetchNearbyPlaces qlat qlng r s))))
    \<and> places (nearbyResponse (nextController s) rawB (fetchNearbyPlaces qlat qlng r s)) =
        map enhancePlace rawB"
proof -
  let ?s1 = "fetchNearbyPlaces qlat qlng r s"
  have fr: "controllersFresh s" unfolding reach by (rule fresh_run [OF fresh_initial])
  then have cur: "abortControllerRef s = Some a"
    using inflight by (auto simp: controllersFresh_iff)
  have lt: "a < nextController s" using fr cur by (simp add: controllersFresh_iff)
  have noerr: "LogFetchError a \<notin> set (consoleLog s)"
    using fr inflight by (auto simp: controllersFresh_iff)
  have st: "settled a ?s1"
    using lt cur by (auto simp: settled_def fetchNearbyPlaces_fields)
  have lg: "set (consoleLog ?s1) = insert (LogCancelled a) (set (consoleLog s))"
    using cur inflight by (auto simp: fetchNearbyPlaces_fields)
  have q: "quiet a ?s1" using st noerr lg by (simp add: quiet_def)
  have ign: "\<And>evs raw. nearbyResponse a raw (run evs ?s1) = run evs ?s1"
    using settled_response_ignored [OF settled_run [OF st]] by simp
  have pl: "\<And>evs raw. places (run (evs @ [Respond a raw]) ?s1) = places (run evs ?s1)"
    using ign by (simp add: run_append)
  have ne: "\<And>evs. LogFetchError a \<notin> set (consoleLog (run evs ?s1))"
    using quiet_run [OF q] by (simp add: quiet_def)
  have "a \<notin> fst ` set (pendingRequests ?s1)" using st by (simp add: settled_def)
  moreover have "places (nearbyResponse (nextController s) rawB ?s1) = map enhancePlace rawB"
    by (simp add: nearbyResponse_def fetchNearbyPlaces_fields)
  ultimately show ?thesis using cur lg ign pl ne by simp
qed


theorem stale_nearby_response_ignored_witness:
  "abortControllerRef (run [FetchNearby 1 2] initialMapPage) = Some 1
   \<and> 1 \<in> fst ` set (pendingRequests (run [FetchNearby 1 2] initialMapPage))
   \<and> consoleLog (run [FetchNearby 1 2, FetchNearby 3 4] initialMapPage) = [LogCancelled 1]
   \<and> map place_id (places (run [FetchNearby 1 2, FetchNearby 3 4,
         Respond 2 [rawPlaceAt ''b'']] initialMapPage)) = [''b'']
   \<and> places (run [FetchNearby 1 2, FetchNearby 3 4,
         Respond 2 [rawPlaceAt ''b''], Respond 1 [rawPlaceAt ''a'']] initialMapPage) =
       places (run [FetchNearby 1 2, FetchNearby 3 4,
         Respond 2 [rawPlaceAt ''b'']] initialMapPage)"
proof -
  let ?s = "run [FetchNearby 1 2] initialMapPage"
  have h1: "abortControllerRef ?s = Some 1"
    by (simp add: fetchNearbyPlaces_fields initialMapPage_def)
  have h2: "1 \<in> fst ` set (pendingRequests ?s)"
    by (simp add: fetchNearbyPlaces_fields initialMapPage_def)
  have lg: "consoleLog (run [FetchNearby 1 2, FetchNearby 3 4] initialMapPage) =
      [LogCancelled 1]"
    by (simp add: fetchNearbyPlaces_fields initialMapPage_def)
  have pb: "map place_id (places (run [FetchNearby 1 2, FetchNearby 3 4,
         Respond 2 [rawPlaceAt ''b'']] initialMapPage)) = [''b'']"
    by (simp add: fetchNearbyPlaces_fields initialMapPage_def nearbyResponse_def
        enhancePlace_def rawPlaceAt_def)
  from stale_nearby_response_ignored [OF refl h2, of 3 4 10]
  have "places (run ([Respond 2 [rawPlaceAt ''b'']] @ [Respond 1 [rawPlaceAt ''a'']])
          (fetchNearbyPlaces 3 4 10 ?s)) =
        places (run [Respond 2 [rawPlaceAt ''b'']] (fetchNearbyPlaces 3 4 10 ?s))"
    by blast
  then show ?thesis using h1 h2 lg pb by simp
qed

section \<open>Properties of the debounced bounds handler\<close>

lemma timerCallback_fields:
  "timers (timerCallback st t) = timers st"
  "now (timerCallback st t) = now st"
  "debounceTimerRef (timerCallback st t) = debounceTimerRef st"
  "nextTimer (timerCallback st t) = nextTimer st"
  "issuedQueries (timerCallback st t) = issuedQueries st @ [boundsQuery (snd (snd t))]"
  by (simp_all add: timerCallback_def Let_def fetchNearbyPlaces_fields)

lemma foldl_timerCallback_fields:
  "timers (foldl timerCallback st ts) = timers st"
  "now (foldl timerCallback st ts) = now st"
  "debounceTimerRef (foldl timerCallback st ts) = debounceTimerRef st"
  "nextTimer (foldl timerCallback st ts) = nextTimer st"
  "issuedQueries (foldl timerCallback st ts) =
     issuedQueries st @ map (\<lambda>t. boundsQuery (snd (snd t))) ts"
  by (induction ts arbitrary: st) (simp_all add: timerCallback_fields)

lemma timersOk_step: "timersOk st \<Longrightarrow> timersOk (step e st)"
proof (cases e)
  case (BoundsChange b)
  assume "timersOk st"
  then show ?thesis using BoundsChange
    by (auto simp: timersOk_def handleBoundsChange_def Let_def split: option.split)
next
  case (Advance d)
  assume "timersOk st"
  then show ?thesis using Advance
    by (auto simp: timersOk_def advance_def Let_def foldl_timerCallback_fields)
next
  case (FetchNearby x y)
  assume "timersOk st"
  then show ?thesis using FetchNearby by (simp add: timersOk_def fetchNearbyPlaces_fields)
next
  case (Respond c raw)
  assume "timersOk st"
  then show ?thesis using Respond by (simp add: timersOk_def nearbyResponse_def)
next
  case (Fail c)
  assume "timersOk st"
  then show ?thesis using Fail by (simp add: timersOk_def nearbyFailure_def)
qed

lemma timersOk_run: "timersOk st \<Longrightarrow> timersOk (run evs st)"
  by (induction evs arbitrary: st) (auto simp: timersOk_step)

lemma timersOk_initial: "timersOk initialMapPage"
  by (simp add: timersOk_def initialMapPage_def)

lemma handleBoundsChange_fields:
  assumes "timersOk st"
  shows "timers (handleBoundsChange b st) = [(nextTimer st, now st + 500, b)]"
    and "debounceTimerRef (handleBoundsChange b st) = Some (nextTimer st)"
    and "issuedQueries (handleBoundsChange b st) = issuedQueries st"
    and "now (handleBoundsChange b st) = now st"
proof -
  have "filter (\<lambda>x. Some (fst x) \<noteq> debounceTimerRef st) (timers st) = []"
    using assms by (auto simp: timersOk_def filter_empty_conv)
  moreover have "debounceTimerRef st = None \<Longrightarrow> timers st = []"
    using assms by (cases "timers st") (auto simp: timersOk_def)
  ultimately show "timers (handleBoundsChange b st) = [(nextTimer st, now st + 500, b)]"
    by (auto simp: handleBoundsChange_def Let_def split: option.split)
  show "debounceTimerRef (handleBoundsChange b st) = Some (nextTimer st)"
    and "issuedQueries (handleBoundsChange b st) = issuedQueries st"
    and "now (handleBoundsChange b st) = now st"
    by (simp_all add: handleBoundsChange_def Let_def split: option.split)
qed

lemma advance_before_due:
  assumes "timers st = [(t, due, b)]" and "now st + d < due"
  shows "timers (advance d st) = [(t, due, b)]"
    and "issuedQueries (advance d st) = issuedQueries st"
    and "now (advance d st) = now st + d"
    and "debounceTimerRef (advance d st) = debounceTimerRef st"
  using assms by (simp_all add: advance_def Let_def)

lemma advance_after_due:
  assumes "timers st = [(t, due, b)]" and "due \<le> now st + w"
  shows "timers (advance w st) = []"
    and "issuedQueries (advance w st) = issuedQueries st @ [boundsQuery b]"
  using assms by (simp_all add: advance_def Let_def timerCallback_fields)

lemma burst_pending:
  assumes "timersOk st" and "\<forall>x \<in> set pre. snd x < 500"
  shows "\<exists>t. timers (run (burst pre b_last) st) =
              [(t, now (run (burst pre b_last) st) + 500, b_last)]
    \<and> issuedQueries (run (burst pre b_last) st) = issuedQueries st"
  using assms
proof (induction pre arbitrary: st)
  case Nil
  then show ?case by (simp add: handleBoundsChange_fields)
next
  case (Cons x rest)
  obtain b d where x: "x = (b, d)" by (cases x)
  let ?s1 = "handleBoundsChange b st"
  let ?s2 = "advance d ?s1"
  have d: "d < 500" using Cons.prems(2) x by simp
  have t1: "timers ?s1 = [(nextTimer st, now st + 500, b)]"
    and r1: "debounceTimerRef ?s1 = Some (nextTimer st)"
    and q1: "issuedQueries ?s1 = issuedQueries st"
    and n1: "now ?s1 = now st"
    using Cons.prems(1) by (simp_all add: handleBoundsChange_fields)
  have lt: "now ?s1 + d < now st + 500" using d n1 by simp
  have t2: "timers ?s2 = [(nextTimer st, now st + 500, b)]"
    and q2: "issuedQueries ?s2 = issuedQueries st"
    and n2: "now ?s2 = now st + d"
    and r2: "debounceTimerRef ?s2 = Some (nextTimer st)"
    using advance_before_due [OF t1 lt] q1 n1 r1 by simp_all
  have ok2: "timersOk ?s2" using t2 n2 r2 d by (simp add: timersOk_def)
  have "\<forall>x \<in> set rest. snd x < 500" using Cons.prems(2) by simp
  from Cons.IH [OF ok2 this] show ?case using q2 by (simp add: x)
qed


text \<open>
  C5. In a reachable state of the page, a burst of bounds changes in which each call
  comes less than 500 ms after the one before sends no query while it lasts; once
  500 ms have passed after its last call, exactly one query has been sent, the one
  computed from the bounds of the last call, and no timer is left. Each call replaces
  whatever timer was scheduled by one that is due 500 ms after the call.
\<close>

theorem debounced_bounds_change_single_query:
  assumes "st = run evs0 initialMapPage"
    and "\<forall>x \<in> set pre. snd x < 500"
    and "500 \<le> w"
  shows "issuedQueries (run (burst pre b_last) st) = issuedQueries st
    \<and> issuedQueries (run (burst pre b_last @ [Advance w]) st) =
        issuedQueries st @ [boundsQuery b_last]
    \<and> timers (run (burst pre b_last @ [Advance w]) st) = []
    \<and> timers (handleBoundsChange b st) = [(nextTimer st, now st + 500, b)]"
proof -
  have ok: "timersOk st" unfolding assms(1) by (rule timersOk_run [OF timersOk_initial])
  let ?s' = "run (burst pre b_last) st"
  from burst_pending [OF ok assms(2)] obtain t where
    t: "timers ?s' = [(t, now ?s' + 500, b_last)]"
    and q: "issuedQueries ?s' = issuedQueries st" by blast
  have due: "now ?s' + 500 \<le> now ?s' + w" using assms(3) by simp
  show ?thesis
    using advance_after_due [OF t due] q handleBoundsChange_fields(1) [OF ok]
    by (simp add: run_append)
qed


theorem debounced_bounds_change_single_query_witness:
  "initialMapPage = run [] initialMapPage
   \<and> (100::nat) < 500 \<and> (200::nat) < 500
   \<and> (500::nat) \<le> 500
   \<and> issuedQueries (run (burst [(boundsAt 1, 100), (boundsAt 2, 200)] (boundsAt 3)
         @ [Advance 500]) initialMapPage) = [boundsQuery (boundsAt 3)]"
  using debounced_bounds_change_single_query
    [of initialMapPage "[]" "[(boundsAt 1, 100), (boundsAt 2, 200)]" 500 "boundsAt 3"]
  by (simp add: initialMapPage_def)

section \<open>Properties of the marker effect\<close>

lemma foldl_setAdd_set: "set (foldl setAdd acc xs) = set acc \<union> set xs"
  by (induction xs arbitrary: acc) auto

lemma foldl_setAdd_distinct: "distinct acc \<Longrightarrow> distinct (foldl setAdd acc xs)"
  by (induction xs arbitrary: acc) auto

lemma set_newSet: "set (newSet xs) = set xs"
  by (simp add: newSet_def foldl_setAdd_set)

lemma distinct_newSet: "distinct (newSet xs)"
  by (simp add: newSet_def foldl_setAdd_distinct)

lemma indexOf_nonneg_iff: "0 \<le> indexOf ys x \<longleftrightarrow> x \<in> set ys"
  by (induction ys) (auto simp: Let_def)

lemma indexOf_nth:
  "x \<in> set ys \<Longrightarrow> nat (indexOf ys x) < length ys \<and> ys ! nat (indexOf ys x) = x"
proof (induction ys)
  case Nil
  then show ?case by simp
next
  case (Cons y ys)
  show ?case
  proof (cases "x = y")
    case True
    then show ?thesis by simp
  next
    case False
    with Cons.prems have mem: "x \<in> set ys" by simp
    then have nn: "0 \<le> indexOf ys x" by (simp add: indexOf_nonneg_iff)
    then have "nat (indexOf ys x + 1) = Suc (nat (indexOf ys x))" by simp
    then show ?thesis using False nn Cons.IH [OF mem] by (simp add: Let_def)
  qed
qed

lemma markersEffect_ready:
  assumes "mapReady st"
  shows "markersRef (markersEffect ms st) =
      map (\<lambda>m. \<lparr>ov_marker = m,
                 ov_animationDelay =
                   (if marker_id m \<notin> set (previousMarkerIds st)
                    then Some (of_int (indexOf
                        (filter (\<lambda>i. i \<notin> set (previousMarkerIds st))
                           (newSet (map marker_id ms))) (marker_id m)) * 0.05)
                    else None)\<rparr>) ms"
    and "previousMarkerIds (markersEffect ms st) = newSet (map marker_id ms)"
    and "mapReady (markersEffect ms st)"
  using assms by (auto simp: markersEffect_def Let_def set_newSet)


lemma markersEffect_stagger:
  assumes "mapReady st" and "m \<in> set ms"
    and "marker_id m \<notin> set (previousMarkerIds st)"
  shows "\<lparr>ov_marker = m,
          ov_animationDelay =
            Some (of_int (indexOf (filter (\<lambda>i. i \<notin> set (previousMarkerIds st))
                    (newSet (map marker_id ms))) (marker_id m)) * 0.05)\<rparr>
         \<in> set (markersRef (markersEffect ms st))
    \<and> filter (\<lambda>i. i \<notin> set (previousMarkerIds st)) (newSet (map marker_id ms))
        ! nat (indexOf (filter (\<lambda>i. i \<notin> set (previousMarkerIds st))
                 (newSet (map marker_id ms))) (marker_id m)) = marker_id m"
proof -
  let ?N = "filter (\<lambda>i. i \<notin> set (previousMarkerIds st)) (newSet (map marker_id ms))"
  have "marker_id m \<in> set ?N" using assms(2,3) by (simp add: set_newSet)
  then have "?N ! nat (indexOf ?N (marker_id m)) = marker_id m"
    by (simp add: indexOf_nth)
  moreover have "\<lparr>ov_marker = m,
          ov_animationDelay = Some (of_int (indexOf ?N (marker_id m)) * 0.05)\<rparr>
         \<in> set (markersRef (markersEffect ms st))"
    unfolding markersEffect_ready(1) [OF assms(1)] using assms(2,3) by force
  ultimately show ?thesis by simp
qed

text \<open>
  C6. When the effect runs on a loaded map, an overlay gets the entrance animation if
  and only if its marker's identifier is not among the identifiers kept from the
  previous run; the overlays are the given markers, and the identifiers kept for the
  next run are those of the given markers. So a second marker list whose identifiers
  all occur in the first, and in general a list whose identifiers were all kept, gets no
  animation at all. The delay of an animated marker is 0.05 s times its position among
  the new identifiers (\<open>markersEffect_stagger\<close>).
\<close>

theorem markersEffect_new_iff_absent:
  assumes "mapReady st"
  shows "(\<forall>ov \<in> set (markersRef (markersEffect ms st)).
            (ov_animationDelay ov \<noteq> None) =
            (marker_id (ov_marker ov) \<notin> set (previousMarkerIds st)))
    \<and> map ov_marker (markersRef (markersEffect ms st)) = ms
    \<and> set (previousMarkerIds (markersEffect ms st)) = set (map marker_id ms)
    \<and> (set (map marker_id ms2) \<subseteq> set (map marker_id ms) \<longrightarrow>
         (\<forall>ov \<in> set (markersRef (markersEffect ms2 (markersEffect ms st))).
            ov_animationDelay ov = None))
    \<and> (set (map marker_id ms) \<subseteq> set (previousMarkerIds st) \<longrightarrow>
         (\<forall>ov \<in> set (markersRef (markersEffect ms st)). ov_animationDelay ov = None))"
proof -
  have a: "\<forall>ov \<in> set (markersRef (markersEffect ms st)).
            (ov_animationDelay ov \<noteq> None) =
            (marker_id (ov_marker ov) \<notin> set (previousMarkerIds st))"
  proof
    fix ov assume "ov \<in> set (markersRef (markersEffect ms st))"
    then obtain m where "m \<in> set ms" and ov: "ov = \<lparr>ov_marker = m,
                 ov_animationDelay =
                   (if marker_id m \<notin> set (previousMarkerIds st)
                    then Some (of_int (indexOf
                        (filter (\<lambda>i. i \<notin> set (previousMarkerIds st))
                           (newSet (map marker_id ms))) (marker_id m)) * 0.05)
                    else None)\<rparr>"
      unfolding markersEffect_ready(1) [OF assms] by auto
    show "(ov_animationDelay ov \<noteq> None) =
            (marker_id (ov_marker ov) \<notin> set (previousMarkerIds st))"
      unfolding ov by (cases "marker_id m \<in> set (previousMarkerIds st)") simp_all
  qed
  have b: "map ov_marker (markersRef (markersEffect ms st)) = ms"
    by (simp add: markersEffect_ready(1) [OF assms] comp_def)
  have c: "set (previousMarkerIds (markersEffect ms st)) = set (map marker_id ms)"
    by (simp add: markersEffect_ready(2) [OF assms] set_newSet)
  have r: "mapReady (markersEffect ms st)" using assms by (rule markersEffect_ready(3))
  have d: "set (map marker_id ms2) \<subseteq> set (map marker_id ms) \<longrightarrow>
         (\<forall>ov \<in> set (markersRef (markersEffect ms2 (markersEffect ms st))).
            ov_animationDelay ov = None)"
    using c by (auto simp: markersEffect_ready(1) [OF r])
  have e: "set (map marker_id ms) \<subseteq> set (previousMarkerIds st) \<longrightarrow>
         (\<forall>ov \<in> set (markersRef (markersEffect ms st)). ov_animationDelay ov = None)"
    by (auto simp: markersEffect_ready(1) [OF assms])
  show ?thesis using a b c d e by blast
qed


theorem markersEffect_new_iff_absent_witness:
  "mapReady loadedMapView
   \<and> map ov_animationDelay
       (markersRef (markersEffect [markerAt ''a'', markerAt ''b''] loadedMapView)) =
       [Some 0, Some 0.05]
   \<and> set (map marker_id [markerAt ''b''])
       \<subseteq> set (map marker_id [markerAt ''a'', markerAt ''b''])
   \<and> map ov_animationDelay (markersRef (markersEffect [markerAt ''b'']
        (markersEffect [markerAt ''a'', markerAt ''b''] loadedMapView))) = [None]
   \<and> map ov_animationDelay (markersRef (markersEffect [markerAt ''b'', markerAt ''c'']
        (markersEffect [markerAt ''a'', markerAt ''b''] loadedMapView))) =
       [None, Some 0]"
proof -
  have r: "mapReady loadedMapView" by (simp add: loadedMapView_def)
  have sub: "set (map marker_id [markerAt ''b''])
       \<subseteq> set (map marker_id [markerAt ''a'', markerAt ''b''])"
    by (simp add: markerAt_def)
  have e1: "map ov_animationDelay
       (markersRef (markersEffect [markerAt ''a'', markerAt ''b''] loadedMapView)) =
       [Some 0, Some 0.05]"
    by (simp add: markersEffect_def loadedMapView_def markerAt_def newSet_def Let_def)
  have e2: "map ov_animationDelay (markersRef (markersEffect [markerAt ''b'', markerAt ''c'']
        (markersEffect [markerAt ''a'', markerAt ''b''] loadedMapView))) = [None, Some 0]"
    by (simp add: markersEffect_def loadedMapView_def markerAt_def newSet_def Let_def)
  have "\<forall>ov \<in> set (markersRef (markersEffect [markerAt ''b'']
          (markersEffect [markerAt ''a'', markerAt ''b''] loadedMapView))).
        ov_animationDelay ov = None"
    using markersEffect_new_iff_absent
      [OF r, of "[markerAt ''a'', markerAt ''b'']" "[markerAt ''b'']"] sub
    by blast
  moreover have "length (markersRef (markersEffect [markerAt ''b'']
          (markersEffect [markerAt ''a'', markerAt ''b''] loadedMapView))) = 1"
    by (simp add: markersEffect_def loadedMapView_def Let_def)
  ultimately have e3: "map ov_animationDelay (markersRef (markersEffect [markerAt ''b'']
        (markersEffect [markerAt ''a'', markerAt ''b''] loadedMapView))) = [None]"
    by (cases "markersRef (markersEffect [markerAt ''b'']
          (markersEffect [markerAt ''a'', markerAt ''b''] loadedMapView))") auto
  show ?thesis using r sub e1 e2 e3 by simp
qed

end
